theory Spec2Isabelle
  imports Main "HOL-Library.Word" "HOL-Library.Sublist"
begin

section \<open>JavaScript values used by the chat screen\<close>

text \<open>
  A JavaScript string is a sequence of UTF-16 code units. Literals of the source are
  ASCII and are written with \<open>lit\<close>.
\<close>

type_synonym code_unit = "16 word"
type_synonym jsstring = "code_unit list"

definition lit :: "string \<Rightarrow> jsstring" where
  "lit s = map of_char s"

text \<open>
  \<open>String.prototype.trim\<close> removes leading and trailing code units that are
  ECMAScript WhiteSpace or LineTerminator: TAB, LF, VT, FF, CR, SPACE, NBSP, U+1680,
  U+2000 to U+200A, U+2028, U+2029, U+202F, U+205F, U+3000 and U+FEFF.
\<close>

definition isWhiteSpace :: "code_unit \<Rightarrow> bool" where
  "isWhiteSpace c = (c \<in> set [0x0009, 0x000A, 0x000B, 0x000C, 0x000D, 0x0020, 0x00A0,
     0x1680, 0x2000, 0x2001, 0x2002, 0x2003, 0x2004, 0x2005, 0x2006, 0x2007, 0x2008,
     0x2009, 0x200A, 0x2028, 0x2029, 0x202F, 0x205F, 0x3000, 0xFEFF])"

definition trim :: "jsstring \<Rightarrow> jsstring" where
  "trim s = rev (dropWhile isWhiteSpace (rev (dropWhile isWhiteSpace s)))"

text \<open>
  The decimal rendering of a non-negative integer, as the template literal
  \<^verbatim>\<open>${res.status}\<close> produces it.
\<close>

fun to_decimal :: "nat \<Rightarrow> jsstring" where
  "to_decimal n =
     (if n < 10 then [of_nat (48 + n)]
      else to_decimal (n div 10) @ [of_nat (48 + n mod 10)])"

declare to_decimal.simps [simp del]

text \<open>
  A number as \<open>JSON.parse\<close> can produce it: the double \<open>m * 2 ^ e\<close>, or an infinity
  for a literal out of range. \<open>NaN\<close> is kept for completeness. Only the truth value of a
  number matters to the chat screen.
\<close>

datatype jsnum = Dbl int int | PosInf | NegInf | NaN

datatype jsval =
    JUndefined
  | JNull
  | JBool bool
  | JNum jsnum
  | JStr jsstring
  | JArr "jsval list"
  | JObj "(jsstring \<times> jsval) list"

fun num_truthy :: "jsnum \<Rightarrow> bool" where
  "num_truthy (Dbl m e) = (m \<noteq> 0)"
| "num_truthy PosInf = True"
| "num_truthy NegInf = True"
| "num_truthy NaN = False"

text \<open>\<open>ToBoolean\<close>, as used by \<^verbatim>\<open>||\<close>, \<^verbatim>\<open>&&\<close> and \<^verbatim>\<open>!\<close>.\<close>

fun truthy :: "jsval \<Rightarrow> bool" where
  "truthy JUndefined = False"
| "truthy JNull = False"
| "truthy (JBool b) = b"
| "truthy (JNum n) = num_truthy n"
| "truthy (JStr s) = (s \<noteq> [])"
| "truthy (JArr xs) = True"
| "truthy (JObj kvs) = True"

text \<open>
  A thrown error or a rejected promise is the left summand, carrying the text that
  \<^verbatim>\<open>${err.message}\<close> renders in the catch block.

  Reading a property of \<open>null\<close> or \<open>undefined\<close> throws a TypeError (the wording is
  V8's). On an object the property is looked up among its own keys; on every other
  value the names read by the chat screen (\<open>text\<close>, \<open>image\<close>, \<open>stlUrl\<close>) are not
  defined by the built-in prototypes, so the read gives \<open>undefined\<close>.
\<close>

definition typeError :: "string \<Rightarrow> jsstring \<Rightarrow> jsstring" where
  "typeError what k =
     lit ''Cannot read properties of '' @ lit what @ lit '' (reading '' @ [0x27] @ k @ [0x27]
       @ lit '')''"

fun get_prop :: "jsval \<Rightarrow> jsstring \<Rightarrow> jsstring + jsval" where
  "get_prop JUndefined k = Inl (typeError ''undefined'' k)"
| "get_prop JNull k = Inl (typeError ''null'' k)"
| "get_prop (JObj kvs) k = Inr (case map_of kvs k of None \<Rightarrow> JUndefined | Some v \<Rightarrow> v)"
| "get_prop (JBool b) k = Inr JUndefined"
| "get_prop (JNum n) k = Inr JUndefined"
| "get_prop (JStr s) k = Inr JUndefined"
| "get_prop (JArr xs) k = Inr JUndefined"

section \<open>The external call\<close>

text \<open>
  A promise settles by fulfilling with a value or by rejecting with an error, whose
  rendered message is kept.
\<close>

datatype 'a settled = Fulfilled 'a | Rejected jsstring

text \<open>
  What the chat screen reads of a \<open>Response\<close>: its status, the settlement of
  \<open>res.text()\<close> and the settlement of \<open>res.json()\<close>. \<open>res.ok\<close> is defined by the
  Fetch standard as a status from 200 to 299.
\<close>

record response =
  status :: nat
  body_text :: "jsstring settled"
  body_json :: "jsval settled"

definition ok :: "response \<Rightarrow> bool" where
  "ok res = (200 \<le> status res \<and> status res \<le> 299)"

section \<open>Component state\<close>

datatype role = User | Bot

text \<open>
  A chat message. A field that the object literal does not set, or sets to
  \<open>undefined\<close>, is \<open>JUndefined\<close>: the component only ever tests these fields for truth.
\<close>

record message =
  role :: role
  msg_text :: jsval
  msg_image :: jsval
  stlUrl :: jsval
  ts :: nat

text \<open>
  The six \<open>useState\<close> cells of \<open>ModelMint3DGenerator\<close>, followed by what the
  component's handlers touch outside React: the fetches not yet settled (each with the
  message it posted), the due times of the pending \<open>setTimeout\<close> callbacks, the clock
  in milliseconds, the number of loader scripts appended to the document head, and
  whether \<open>customElements.get("model-viewer")\<close> is defined.
\<close>

record session =
  prompt :: jsstring
  messages :: "message list"
  loading :: bool
  typing :: bool
  previewUrl :: jsval
  showPreview :: bool
  pending :: "jsstring list"
  timers :: "nat list"
  clock :: nat
  scripts :: nat
  registered :: bool

definition init :: session where
  "init = \<lparr> prompt = [], messages = [], loading = False, typing = False,
            previewUrl = JNull, showPreview = False,
            pending = [], timers = [], clock = 0, scripts = 0, registered = False \<rparr>"

section \<open>sendMessage\<close>

definition userMsg :: "jsstring \<Rightarrow> nat \<Rightarrow> message" where
  "userMsg trimmed now =
     \<lparr> role = User, msg_text = JStr trimmed, msg_image = JUndefined, stlUrl = JUndefined,
       ts = now \<rparr>"

text \<open>The part of \<open>sendMessage\<close> that runs before the first \<open>await\<close>.\<close>

definition sendMessage :: "session \<Rightarrow> session" where
  "sendMessage s =
     (let trimmed = trim (prompt s) in
      if trimmed = [] \<or> loading s then s
      else s\<lparr> messages := messages s @ [userMsg trimmed (clock s)],
               prompt := [],
               loading := True,
               typing := True,
               pending := pending s @ [trimmed] \<rparr>)"

text \<open>
  The body of the \<open>try\<close> block after \<open>fetch\<close> has settled: either the bot message
  it builds, or the message of the error it throws.
\<close>

definition tryBody :: "nat \<Rightarrow> response settled \<Rightarrow> jsstring + message" where
  "tryBody now outcome =
     (case outcome of
        Rejected m \<Rightarrow> Inl m
      | Fulfilled res \<Rightarrow>
          if \<not> ok res then
            (case body_text res of
               Rejected m \<Rightarrow> Inl m
             | Fulfilled t \<Rightarrow>
                 Inl (lit ''Server error: '' @ to_decimal (status res) @ lit '' - '' @ t))
          else
            (case body_json res of
               Rejected m \<Rightarrow> Inl m
             | Fulfilled data \<Rightarrow>
                 (case get_prop data (lit ''text'') of
                    Inl m \<Rightarrow> Inl m
                  | Inr t \<Rightarrow>
                 (case get_prop data (lit ''image'') of
                    Inl m \<Rightarrow> Inl m
                  | Inr img \<Rightarrow>
                 (case get_prop data (lit ''stlUrl'') of
                    Inl m \<Rightarrow> Inl m
                  | Inr stl \<Rightarrow>
                      Inr \<lparr> role = Bot,
                            msg_text = (if truthy t then t else JStr []),
                            msg_image = img,
                            stlUrl = stl,
                            ts = now \<rparr>)))))"

text \<open>The message appended by the \<open>try\<close> block or, if it threw, by the \<open>catch\<close> block.\<close>

definition botMsg :: "nat \<Rightarrow> response settled \<Rightarrow> message" where
  "botMsg now outcome =
     (case tryBody now outcome of
        Inr m \<Rightarrow> m
      | Inl err \<Rightarrow>
          \<lparr> role = Bot, msg_text = JStr (lit ''Error: '' @ err), msg_image = JUndefined,
            stlUrl = JUndefined, ts = now \<rparr>)"

text \<open>
  The rest of \<open>sendMessage\<close>, run when the oldest unsettled fetch settles: the
  functional update appends the bot message to whatever the list is by then, and the
  \<open>finally\<close> block clears \<open>loading\<close> and schedules \<open>setTyping(false)\<close> 250 ms later.
  With no fetch outstanding there is no continuation to run.
\<close>

definition resolveRequest :: "response settled \<Rightarrow> session \<Rightarrow> session" where
  "resolveRequest outcome s =
     (case pending s of
        [] \<Rightarrow> s
      | sent # rest \<Rightarrow>
          s\<lparr> messages := messages s @ [botMsg (clock s) outcome],
             loading := False,
             timers := timers s @ [clock s + 250],
             pending := rest \<rparr>)"

text \<open>
  Time passing: the clock moves on by \<open>d\<close> ms and every timer that is due runs its
  callback \<open>setTyping(false)\<close>.
\<close>

definition advance :: "nat \<Rightarrow> session \<Rightarrow> session" where
  "advance d s =
     (let now = clock s + d in
      s\<lparr> clock := now,
         timers := filter (\<lambda>t. now < t) (timers s),
         typing := (if filter (\<lambda>t. t \<le> now) (timers s) = [] then typing s else False) \<rparr>)"

section \<open>Clear, preview and the viewer loader\<close>

text \<open>The Clear button: \<open>setMessages([])\<close>.\<close>

definition clear :: "session \<Rightarrow> session" where
  "clear s = s\<lparr> messages := [] \<rparr>"

definition openPreview :: "jsval \<Rightarrow> session \<Rightarrow> session" where
  "openPreview url s = s\<lparr> previewUrl := url, showPreview := True \<rparr>"

text \<open>The Close button and a click on the backdrop: \<open>setShowPreview(false)\<close>.\<close>

definition closePreview :: "session \<Rightarrow> session" where
  "closePreview s = s\<lparr> showPreview := False \<rparr>"

text \<open>
  The reference shown by the preview modal, which is rendered only under
  \<open>showPreview && previewUrl\<close>.
\<close>

definition modalTarget :: "session \<Rightarrow> jsval option" where
  "modalTarget s = (if showPreview s \<and> truthy (previewUrl s) then Some (previewUrl s) else None)"

text \<open>The effect with dependency \<open>[showPreview]\<close>.\<close>

definition viewerEffect :: "session \<Rightarrow> session" where
  "viewerEffect s =
     (if \<not> showPreview s then s
      else if registered s then s
      else s\<lparr> scripts := scripts s + 1 \<rparr>)"

text \<open>After a render React runs the effect if \<open>showPreview\<close> differs from the last render.\<close>

definition commit :: "session \<Rightarrow> session \<Rightarrow> session" where
  "commit old new = (if showPreview new = showPreview old then new else viewerEffect new)"

text \<open>
  A loader script that has been appended finishes loading and registers the
  \<open>model-viewer\<close> element.
\<close>

definition scriptLoaded :: "session \<Rightarrow> session" where
  "scriptLoaded s = (if 0 < scripts s then s\<lparr> registered := True \<rparr> else s)"

section \<open>Sessions as event sequences\<close>

datatype event =
    SetPrompt jsstring
  | Submit
  | Settle "response settled"
  | Advance nat
  | Clear
  | OpenPreview jsval
  | ClosePreview
  | ScriptLoaded

fun handler :: "event \<Rightarrow> session \<Rightarrow> session" where
  "handler (SetPrompt p) s = s\<lparr> prompt := p \<rparr>"
| "handler Submit s = sendMessage s"
| "handler (Settle outcome) s = resolveRequest outcome s"
| "handler (Advance d) s = advance d s"
| "handler Clear s = clear s"
| "handler (OpenPreview url) s = openPreview url s"
| "handler ClosePreview s = closePreview s"
| "handler ScriptLoaded s = scriptLoaded s"

definition step :: "event \<Rightarrow> session \<Rightarrow> session" where
  "step e s = commit s (handler e s)"

fun run :: "event list \<Rightarrow> session \<Rightarrow> session" where
  "run [] s = s"
| "run (e # es) s = run es (step e s)"

section \<open>Rendering\<close>

text \<open>
  \<open>step\<close> is what an event does to the state of the mounted component. React then
  renders it, and the message bubble renders \<open>msg.text\<close> as a child: a string, a
  number, a boolean, \<open>null\<close> or \<open>undefined\<close> is a valid child, an array is one if
  its elements are, and an object is not, so that rendering it throws. \<open>App\<close> has no
  error boundary: when a render throws, React unmounts the whole tree and the component
  with its state is gone for good.
\<close>

fun renderable :: "jsval \<Rightarrow> bool" where
  "renderable (JObj kvs) = False"
| "renderable (JArr xs) = list_all renderable xs"
| "renderable v = True"

definition renders :: "session \<Rightarrow> bool" where
  "renders s = list_all (\<lambda>m. renderable (msg_text m)) (messages s)"

datatype app = Running session | Unmounted

fun app_step :: "event \<Rightarrow> app \<Rightarrow> app" where
  "app_step e Unmounted = Unmounted"
| "app_step e (Running s) = (if renders (handler e s) then Running (step e s) else Unmounted)"

fun app_run :: "event list \<Rightarrow> app \<Rightarrow> app" where
  "app_run [] a = a"
| "app_run (e # es) a = app_run es (app_step e a)"

text \<open>The conversation on the screen, if there is one.\<close>

fun shown :: "app \<Rightarrow> message list option" where
  "shown (Running s) = Some (messages s)"
| "shown Unmounted = None"

section \<open>Routes\<close>

text \<open>
  The route table of \<open>App\<close>, in the order of the source. A route's element either
  renders a page or is a \<open>Navigate\<close> that replaces the location.
\<close>

datatype page = LandingPage | ModelMint3DGenerator

datatype element = Render page | Navigate string

definition routes :: "(string \<times> element) list" where
  "routes =
     [(''/'', Render LandingPage),
      (''/generator'', Render ModelMint3DGenerator),
      (''/app'', Navigate ''/generator''),
      (''*'', Navigate ''/'')]"

text \<open>
  How the router matches a pathname against a route path. The pathname is the one the
  router sees, after it has decoded percent-escapes. The path \<open>*\<close> is compiled to
  the pattern \<^verbatim>\<open>^/(.*)$\<close>, which matches a pathname that starts with a slash and
  has no line terminator after it. A static path such as \<open>/generator\<close> is compiled to
  \<^verbatim>\<open>^/generator\/*$\<close>, and the routes do not set \<open>caseSensitive\<close>: it matches
  up to trailing slashes and up to the case of ASCII letters.
\<close>

definition lower :: "char \<Rightarrow> char" where
  "lower c = (let n = (of_char c :: nat) in if 65 \<le> n \<and> n \<le> 90 then char_of (n + 32) else c)"

definition stripSlashes :: "string \<Rightarrow> string" where
  "stripSlashes p = rev (dropWhile (\<lambda>c. c = CHR ''/'') (rev p))"

definition lineTerminator :: "char \<Rightarrow> bool" where
  "lineTerminator c = (c = CHR 0x0A \<or> c = CHR 0x0D)"

definition matchPath :: "string \<Rightarrow> string \<Rightarrow> bool" where
  "matchPath pat pathname =
     (if pat = ''*'' then
        (case pathname of
           [] \<Rightarrow> False
         | c # cs \<Rightarrow> c = CHR ''/'' \<and> filter lineTerminator cs = [])
      else pathname \<noteq> []
           \<and> map lower (stripSlashes pathname) = map lower (stripSlashes pat))"

text \<open>
  A pathname as the browser holds it, in printable ASCII and starting with a slash, that
  has no percent-escape: the router's decoding leaves it as it is.
\<close>

definition plainPath :: "string \<Rightarrow> bool" where
  "plainPath p =
     (case p of
        [] \<Rightarrow> False
      | c # cs \<Rightarrow>
          c = CHR ''/''
          \<and> list_all (\<lambda>x. 33 \<le> (of_char x :: nat) \<and> (of_char x :: nat) \<le> 126
                           \<and> x \<noteq> CHR ''%'') cs)"

fun matchRoutes :: "(string \<times> element) list \<Rightarrow> string \<Rightarrow> element option" where
  "matchRoutes [] pathname = None"
| "matchRoutes ((pat, el) # rs) pathname =
     (if matchPath pat pathname then Some el else matchRoutes rs pathname)"

text \<open>
  The page shown for a pathname, following at most \<open>n\<close> matches: a \<open>Navigate\<close>
  element sends the router to its target, which is matched again.
\<close>

fun showPage :: "nat \<Rightarrow> string \<Rightarrow> page option" where
  "showPage 0 pathname = None"
| "showPage (Suc n) pathname =
     (case matchRoutes routes pathname of
        None \<Rightarrow> None
      | Some (Render pg) \<Rightarrow> Some pg
      | Some (Navigate target) \<Rightarrow> showPage n target)"

section \<open>Auxiliary notions for the statements\<close>

text \<open>
  An event other than the settlement of a fetch and the Clear button.
\<close>

fun quiet :: "event \<Rightarrow> bool" where
  "quiet (Settle outcome) = False"
| "quiet Clear = False"
| "quiet e = True"

text \<open>
  The single-flight relation between the \<open>loading\<close> flag and the outstanding
  fetches: one fetch while the flag is set, none otherwise.
\<close>

definition single_flight :: "session \<Rightarrow> bool" where
  "single_flight s = (if loading s then length (pending s) = 1 else pending s = [])"


text \<open>
  A reply with status 200 whose body is the JSON text
  \<^verbatim>\<open>{"text":{"a":1}}\<close>: its \<open>text\<close> is an object.
\<close>

definition quoted :: "string \<Rightarrow> jsstring" where
  "quoted w = [0x22] @ lit w @ [0x22]"

definition objectTextReply :: response where
  "objectTextReply =
     \<lparr> status = 200,
       body_text = Fulfilled (lit ''{'' @ quoted ''text'' @ lit '':{'' @ quoted ''a'' @ lit '':1}}''),
       body_json = Fulfilled (JObj [(lit ''text'', JObj [(lit ''a'', JNum (Dbl 1 0))])]) \<rparr>"

section \<open>Basic facts\<close>

lemma run_append: "run (xs @ ys) s = run ys (run xs s)"
  by (induction xs arbitrary: s) simp_all

lemma step_simps:
  "step (SetPrompt p) s = s\<lparr> prompt := p \<rparr>"
  "step Submit s = sendMessage s"
  "step (Settle outcome) s = resolveRequest outcome s"
  "step (Advance d) s = advance d s"
  "step Clear s = clear s"
  "step ClosePreview s = (if showPreview s then s\<lparr> showPreview := False \<rparr> else s)"
  "step ScriptLoaded s = scriptLoaded s"
  by (simp_all add: step_def commit_def viewerEffect_def sendMessage_def resolveRequest_def
        advance_def clear_def closePreview_def scriptLoaded_def Let_def split: list.split)

lemma step_OpenPreview:
  "step (OpenPreview url) s =
     (if showPreview s \<or> registered s then s\<lparr> previewUrl := url, showPreview := True \<rparr>
      else s\<lparr> previewUrl := url, showPreview := True, scripts := scripts s + 1 \<rparr>)"
  by (simp add: step_def commit_def viewerEffect_def openPreview_def)

lemma single_flight_init: "single_flight init"
  by (simp add: single_flight_def init_def)

lemma single_flight_step: "single_flight s \<Longrightarrow> single_flight (step e s)"
  by (cases e)
     (auto simp add: step_simps step_OpenPreview single_flight_def sendMessage_def
        resolveRequest_def advance_def clear_def scriptLoaded_def Let_def
        split: list.splits if_splits)

lemma single_flight_run: "single_flight s \<Longrightarrow> single_flight (run es s)"
  by (induction es arbitrary: s) (simp_all add: single_flight_step)

lemma single_flight_reachable: "single_flight (run es init)"
  by (rule single_flight_run [OF single_flight_init])

lemma quiet_step:
  assumes "loading s" and "quiet e"
  shows "messages (step e s) = messages s \<and> loading (step e s)
         \<and> pending (step e s) = pending s"
  using assms
  by (cases e)
     (simp_all add: step_simps step_OpenPreview sendMessage_def advance_def scriptLoaded_def
        Let_def)

lemma quiet_run:
  assumes "loading s" and "list_all quiet mid"
  shows "messages (run mid s) = messages s \<and> loading (run mid s)
         \<and> pending (run mid s) = pending s"
  using assms
proof (induction mid arbitrary: s)
  case Nil
  then show ?case by simp
next
  case (Cons e mid)
  from Cons.prems have q: "quiet e" and qs: "list_all quiet mid" by simp_all
  from quiet_step [OF Cons.prems(1) q]
  have st: "messages (step e s) = messages s" "loading (step e s)"
    "pending (step e s) = pending s" by simp_all
  from Cons.IH [OF st(2) qs] st show ?case by simp
qed

lemma to_decimal_500: "to_decimal 500 = lit ''500''"
  by (simp add: to_decimal.simps lit_def)

lemma registered_step: "registered s \<Longrightarrow> registered (step e s) \<and> scripts (step e s) = scripts s"
  by (cases e)
     (simp_all add: step_simps step_OpenPreview sendMessage_def resolveRequest_def advance_def
        clear_def scriptLoaded_def Let_def split: list.split)

lemma registered_run: "registered s \<Longrightarrow> registered (run es s) \<and> scripts (run es s) = scripts s"
proof (induction es arbitrary: s)
  case Nil
  then show ?case by simp
next
  case (Cons e es)
  from registered_step [OF Cons.prems] have "registered (step e s)" "scripts (step e s) = scripts s"
    by simp_all
  with Cons.IH [of "step e s"] show ?case by simp
qed

lemma trim_a: "trim (lit ''a'') = lit ''a''" "trim (lit ''b'') = lit ''b''"
  by (simp_all add: trim_def lit_def isWhiteSpace_def)

lemma app_run_append: "app_run (xs @ ys) a = app_run ys (app_run xs a)"
  by (induction xs arbitrary: a) simp_all

lemma renders_append:
  "renders (s\<lparr> messages := messages s @ [m] \<rparr>) = (renders s \<and> renderable (msg_text m))"
  by (simp add: renders_def)

lemma renders_messages: "messages s' = messages s \<Longrightarrow> renders s' = renders s"
  by (simp add: renders_def)

lemma handler_messages: "messages (step e s) = messages (handler e s)"
  by (simp add: step_def commit_def viewerEffect_def)

lemma app_step_Running:
  "renders (step e s) \<Longrightarrow> app_step e (Running s) = Running (step e s)"
  using renders_messages [OF handler_messages [of e s]] by simp

lemma app_run_quiet:
  assumes "loading s" and "renders s" and "list_all quiet mid"
  shows "app_run mid (Running s) = Running (run mid s)"
  using assms
proof (induction mid arbitrary: s)
  case Nil
  then show ?case by simp
next
  case (Cons e mid)
  from Cons.prems have q: "quiet e" and qs: "list_all quiet mid" by simp_all
  from quiet_step [OF Cons.prems(1) q]
  have st: "messages (step e s) = messages s" "loading (step e s)" by simp_all
  from renders_messages [OF st(1)] Cons.prems(2) have r: "renders (step e s)" by simp
  from Cons.IH [OF st(2) r qs] app_step_Running [OF r] show ?case by simp
qed

lemma botMsg_role: "role (botMsg now outcome) = Bot"
  by (simp add: botMsg_def tryBody_def split: sum.splits settled.splits)

lemma plainPath_star: "plainPath p \<Longrightarrow> matchPath ''*'' p"
proof (cases p)
  case Nil
  then show "plainPath p \<Longrightarrow> matchPath ''*'' p" by (simp add: plainPath_def)
next
  case (Cons c cs)
  assume pp: "plainPath p"
  with Cons have c: "c = CHR ''/''"
    and all: "list_all (\<lambda>x. 33 \<le> (of_char x :: nat) \<and> (of_char x :: nat) \<le> 126 \<and> x \<noteq> CHR ''%'') cs"
    by (simp_all add: plainPath_def)
  have "\<not> lineTerminator x" if "x \<in> set cs" for x
  proof -
    from all that have "33 \<le> (of_char x :: nat)" by (simp add: list_all_iff)
    then show ?thesis by (auto simp add: lineTerminator_def)
  qed
  then have "filter lineTerminator cs = []" by (simp add: filter_empty_conv)
  with Cons c show ?thesis by (simp add: matchPath_def)
qed

section \<open>Accepted submissions\<close>

text \<open>
  What the handlers do to the state: a prompt whose trimmed form is not empty, submitted
  while no request is in flight, appends one user message, and the settlement of the
  request, with any outcome, appends one bot message after it. Whatever else happens in
  between, short of the Clear button, these two are the only messages appended.
\<close>

lemma submit_settle_state:
  assumes "trim (prompt s) \<noteq> []" and "\<not> loading s" and "single_flight s"
    and "list_all quiet mid"
  shows "messages (run (Submit # mid @ [Settle outcome]) s) =
           messages s @ [userMsg (trim (prompt s)) (clock s),
                         botMsg (clock (run (Submit # mid) s)) outcome]
         \<and> role (userMsg (trim (prompt s)) (clock s)) = User
         \<and> role (botMsg (clock (run (Submit # mid) s)) outcome) = Bot
         \<and> pending (run (Submit # mid) s) = [trim (prompt s)]
         \<and> pending (run (Submit # mid @ [Settle outcome]) s) = []"
proof -
  let ?s1 = "step Submit s"
  let ?s2 = "run mid ?s1"
  from assms(2,3) have p0: "pending s = []" by (simp add: single_flight_def)
  from assms(1,2) p0 have s1:
    "messages ?s1 = messages s @ [userMsg (trim (prompt s)) (clock s)]"
    "loading ?s1" "pending ?s1 = [trim (prompt s)]"
    by (simp_all add: step_simps sendMessage_def Let_def)
  from quiet_run [OF s1(2) assms(4)] s1 have s2:
    "messages ?s2 = messages s @ [userMsg (trim (prompt s)) (clock s)]"
    "pending ?s2 = [trim (prompt s)]" by simp_all
  have r: "run (Submit # mid @ [Settle outcome]) s = step (Settle outcome) ?s2"
    by (simp add: run_append)
  have r': "run (Submit # mid) s = ?s2" by simp
  have b: "role (botMsg now outcome) = Bot" for now by (rule botMsg_role)
  have fin: "messages (step (Settle outcome) ?s2) = messages ?s2 @ [botMsg (clock ?s2) outcome]"
    "pending (step (Settle outcome) ?s2) = []"
    using s2(2) by (simp_all add: step_simps resolveRequest_def)
  have u: "role (userMsg (trim (prompt s)) (clock s)) = User"
    by (simp add: userMsg_def)
  show ?thesis
    unfolding r r' using fin s2 b u by simp
qed

text \<open>
  On the screen the same holds when the text of the bot message is one React can render,
  which is so for every error message and for every reply whose \<open>text\<close> is a string.
\<close>

lemma submit_settle_shows_user_then_bot:
  assumes "trim (prompt s) \<noteq> []" and "\<not> loading s" and "single_flight s" and "renders s"
    and "list_all quiet mid"
    and "renderable (msg_text (botMsg (clock (run (Submit # mid) s)) outcome))"
  shows "shown (app_run (Submit # mid @ [Settle outcome]) (Running s)) =
           Some (messages s @ [userMsg (trim (prompt s)) (clock s),
                               botMsg (clock (run (Submit # mid) s)) outcome])"
proof -
  let ?s1 = "step Submit s"
  let ?s2 = "run mid ?s1"
  let ?s3 = "step (Settle outcome) ?s2"
  from assms(2,3) have p0: "pending s = []" by (simp add: single_flight_def)
  from assms(1,2) p0 have s1:
    "messages ?s1 = messages s @ [userMsg (trim (prompt s)) (clock s)]"
    "loading ?s1" "pending ?s1 = [trim (prompt s)]"
    by (simp_all add: step_simps sendMessage_def Let_def)
  from s1(1) assms(4) have r1: "renders ?s1" by (simp add: renders_def userMsg_def)
  from quiet_run [OF s1(2) assms(5)] s1 have s2:
    "messages ?s2 = messages s @ [userMsg (trim (prompt s)) (clock s)]"
    "pending ?s2 = [trim (prompt s)]" by simp_all
  from renders_messages [of ?s2 ?s1] s1(1) s2(1) r1 have r2: "renders ?s2" by simp
  have c: "run (Submit # mid) s = ?s2" by simp
  have m3: "messages ?s3 = messages ?s2 @ [botMsg (clock ?s2) outcome]"
    using s2(2) by (simp add: step_simps resolveRequest_def)
  from assms(6) r2 have r3: "renders ?s3"
    unfolding c by (simp add: renders_def m3)
  have a1: "app_step Submit (Running s) = Running ?s1" by (rule app_step_Running [OF r1])
  have a2: "app_run mid (Running ?s1) = Running ?s2" by (rule app_run_quiet [OF s1(2) r1 assms(5)])
  have a3: "app_step (Settle outcome) (Running ?s2) = Running ?s3" by (rule app_step_Running [OF r3])
  have "app_run (Submit # mid @ [Settle outcome]) (Running s) = Running ?s3"
    by (simp only: app_run.simps app_run_append a1 a2 a3)
  then show ?thesis unfolding c by (simp add: m3 s2(1))
qed

text \<open>
  C1. Every accepted submission ends with a bot entry in the conversation once its
  request has resolved. The code breaks this for a reply of status 200 whose \<open>text\<close>
  is a JSON object: \<^verbatim>\<open>data.text || ""\<close> keeps the object, the try block appends a
  message carrying it, and rendering that message throws, so that the whole application
  is unmounted and no conversation is left.
\<close>

theorem object_text_reply_unmounts:
  "ok objectTextReply
   \<and> shown (app_run [SetPrompt (lit ''a''), Submit] (Running init)) =
       Some [\<lparr> role = User, msg_text = JStr (lit ''a''), msg_image = JUndefined,
               stlUrl = JUndefined, ts = 0 \<rparr>]
   \<and> botMsg 0 (Fulfilled objectTextReply) =
       \<lparr> role = Bot, msg_text = JObj [(lit ''a'', JNum (Dbl 1 0))], msg_image = JUndefined,
         stlUrl = JUndefined, ts = 0 \<rparr>
   \<and> app_run [SetPrompt (lit ''a''), Submit, Settle (Fulfilled objectTextReply)] (Running init)
       = Unmounted
   \<and> shown (app_run [SetPrompt (lit ''a''), Submit, Settle (Fulfilled objectTextReply)]
              (Running init)) = None"
proof -
  have ne: "lit ''a'' \<noteq> []" by (simp add: lit_def)
  have k: "lit ''image'' \<noteq> lit ''text''" "lit ''stlUrl'' \<noteq> lit ''text''"
    by (simp_all add: lit_def)
  have okr: "ok objectTextReply" by (simp add: ok_def objectTextReply_def)
  have b: "botMsg 0 (Fulfilled objectTextReply) =
       \<lparr> role = Bot, msg_text = JObj [(lit ''a'', JNum (Dbl 1 0))], msg_image = JUndefined,
         stlUrl = JUndefined, ts = 0 \<rparr>"
    using k by (simp add: botMsg_def tryBody_def ok_def objectTextReply_def)
  have s1: "step Submit (step (SetPrompt (lit ''a'')) init) =
      init\<lparr> messages := [userMsg (lit ''a'') 0], loading := True, typing := True,
            pending := [lit ''a''] \<rparr>"
    using ne by (simp add: step_simps sendMessage_def Let_def trim_a init_def)
  have a1: "app_run [SetPrompt (lit ''a''), Submit] (Running init) =
      Running (init\<lparr> messages := [userMsg (lit ''a'') 0], loading := True, typing := True,
            pending := [lit ''a''] \<rparr>)"
    using ne by (simp add: step_simps sendMessage_def Let_def trim_a init_def renders_def userMsg_def)
  have a2: "app_step (Settle (Fulfilled objectTextReply))
       (Running (init\<lparr> messages := [userMsg (lit ''a'') 0], loading := True, typing := True,
            pending := [lit ''a''] \<rparr>)) = Unmounted"
    by (simp add: resolveRequest_def renders_def b init_def)
  have e: "app_run [SetPrompt (lit ''a''), Submit, Settle (Fulfilled objectTextReply)] (Running init)
       = app_step (Settle (Fulfilled objectTextReply))
           (app_run [SetPrompt (lit ''a''), Submit] (Running init))"
    by simp
  have a3: "app_run [SetPrompt (lit ''a''), Submit, Settle (Fulfilled objectTextReply)] (Running init)
       = Unmounted"
    unfolding e a1 by (rule a2)
  show ?thesis
    unfolding a3 a1 using okr b by (simp add: userMsg_def init_def)
qed

section \<open>Rejected submissions\<close>

text \<open>
  C2. Submitting while a request is in flight (\<open>loading\<close> is set), or with a prompt
  whose trimmed form is empty, changes nothing: no message is appended, no fetch is
  issued, and every state cell is as before.
\<close>

theorem submit_rejected_unchanged:
  assumes "trim (prompt s) = [] \<or> loading s"
  shows "step Submit s = s"
  using assms by (simp add: step_def commit_def sendMessage_def)

theorem submit_rejected_unchanged_witness:
  "(trim (prompt (init\<lparr> prompt := lit '' '' \<rparr>)) = [] \<or> loading (init\<lparr> prompt := lit '' '' \<rparr>))
   \<and> step Submit (init\<lparr> prompt := lit '' '' \<rparr>) = init\<lparr> prompt := lit '' '' \<rparr>"
proof -
  have h: "trim (prompt (init\<lparr> prompt := lit '' '' \<rparr>)) = []
           \<or> loading (init\<lparr> prompt := lit '' '' \<rparr>)"
    by (simp add: trim_def lit_def isWhiteSpace_def)
  show ?thesis
    using h submit_rejected_unchanged [OF h] by simp
qed

section \<open>The viewer loader\<close>

text \<open>
  Once the \<open>model-viewer\<close> element is registered, no sequence of events appends a
  loader script again. An open of the preview appends one exactly when the preview was
  closed and the element is not registered.
\<close>

lemma loader_not_injected_once_registered:
  assumes "registered s"
  shows "scripts (run es s) = scripts s
         \<and> registered (run es s)
         \<and> scripts (step (OpenPreview url) s') =
             (if showPreview s' \<or> registered s' then scripts s' else scripts s' + 1)"
  using registered_run [OF assms, of es] by (simp add: step_OpenPreview)

text \<open>
  Before the element is registered every open of the preview appends a loader script,
  however many have been appended already.
\<close>

lemma reopen_cycles_inject_each_time:
  assumes "\<not> registered s" and "\<not> showPreview s"
  shows "scripts (run (concat (replicate n [OpenPreview url, ClosePreview])) s) = scripts s + n
         \<and> \<not> registered (run (concat (replicate n [OpenPreview url, ClosePreview])) s)
         \<and> \<not> showPreview (run (concat (replicate n [OpenPreview url, ClosePreview])) s)"
  using assms
proof (induction n arbitrary: s)
  case 0
  then show ?case by simp
next
  case (Suc n)
  let ?s' = "step ClosePreview (step (OpenPreview url) s)"
  from Suc.prems have s': "\<not> registered ?s'" "\<not> showPreview ?s'" "scripts ?s' = scripts s + 1"
    by (simp_all add: step_simps step_OpenPreview)
  from Suc.IH [OF s'(1,2)] s'(3) show ?case by simp
qed

text \<open>
  C3. Within a session the load of the viewer is initiated at most once: after a load has
  been initiated, a later open of the preview appends no second loader script. The code
  breaks this when the preview is closed and opened again before the first script has
  registered the element: the guard of the effect looks at the registry only, and a
  second script is appended.
\<close>

theorem reopen_before_registration_injects_again:
  "scripts (run [OpenPreview (JStr (lit ''https://x/y.stl''))] init) = 1
   \<and> registered (run [OpenPreview (JStr (lit ''https://x/y.stl'')), ClosePreview] init) = False
   \<and> scripts (run [OpenPreview (JStr (lit ''https://x/y.stl'')), ClosePreview,
                    OpenPreview (JStr (lit ''https://x/y.stl''))] init) = 2"
  by (simp add: step_simps step_OpenPreview init_def)

section \<open>Closing and reopening the preview\<close>

text \<open>
  Closing the preview leaves \<open>previewUrl\<close> as it was: the reference is still
  stored.
\<close>

theorem close_keeps_previewUrl_counterexample:
  "previewUrl (run [OpenPreview (JStr (lit ''https://x/y.stl'')), ClosePreview] init) =
     JStr (lit ''https://x/y.stl'')
   \<and> previewUrl (run [OpenPreview (JStr (lit ''https://x/y.stl'')), ClosePreview] init) \<noteq> JNull"
  by (simp add: step_simps step_OpenPreview init_def)

text \<open>
  C4, as the code has it. Closing the preview clears \<open>showPreview\<close> only, so that
  no reference is shown while the stored one is kept; opening the preview with a
  reference stores it and shows it, and nothing of the one stored before.
\<close>

theorem close_hides_reopen_shows_new:
  assumes "truthy url"
  shows "showPreview (step ClosePreview s) = False
         \<and> modalTarget (step ClosePreview s) = None
         \<and> previewUrl (step ClosePreview s) = previewUrl s
         \<and> modalTarget (step (OpenPreview url) (step ClosePreview s)) = Some url
         \<and> previewUrl (step (OpenPreview url) (step ClosePreview s)) = url"
  using assms by (simp add: step_simps step_OpenPreview modalTarget_def)

theorem close_hides_reopen_shows_new_witness:
  "truthy (JStr (lit ''https://x/z.stl''))
   \<and> modalTarget (run [OpenPreview (JStr (lit ''https://x/y.stl'')), ClosePreview] init) = None
   \<and> modalTarget (run [OpenPreview (JStr (lit ''https://x/y.stl'')), ClosePreview,
                        OpenPreview (JStr (lit ''https://x/z.stl''))] init) =
       Some (JStr (lit ''https://x/z.stl''))"
proof -
  have h: "truthy (JStr (lit ''https://x/z.stl''))" by (simp add: lit_def)
  show ?thesis
    using h close_hides_reopen_shows_new [OF h, of "step (OpenPreview (JStr (lit ''https://x/y.stl''))) init"]
    by simp
qed

section \<open>Replies of the server\<close>

text \<open>
  C5. When the call resolves with status 500 and body \<open>boom\<close>, the one bot message
  appended has the text \<open>Error: Server error: 500 - boom\<close>, which contains both
  \<open>500\<close> and \<open>boom\<close>, and it has neither an image nor a model-file reference.
\<close>

theorem server_error_500_boom:
  assumes "pending s = sent # rest"
  shows "messages (step (Settle (Fulfilled \<lparr> status = 500, body_text = Fulfilled (lit ''boom''),
                                            body_json = j \<rparr>)) s) =
           messages s @ [\<lparr> role = Bot, msg_text = JStr (lit ''Error: Server error: 500 - boom''),
                           msg_image = JUndefined, stlUrl = JUndefined, ts = clock s \<rparr>]
         \<and> sublist (lit ''500'') (lit ''Error: Server error: 500 - boom'')
         \<and> sublist (lit ''boom'') (lit ''Error: Server error: 500 - boom'')"
proof -
  let ?r = "\<lparr> status = 500, body_text = Fulfilled (lit ''boom''), body_json = j \<rparr>"
  have nok: "\<not> ok ?r" by (simp add: ok_def)
  have "tryBody (clock s) (Fulfilled ?r) = Inl (lit ''Server error: 500 - boom'')"
    using nok by (simp add: tryBody_def to_decimal_500) (simp add: lit_def)
  then have b: "botMsg (clock s) (Fulfilled ?r) =
      \<lparr> role = Bot, msg_text = JStr (lit ''Error: Server error: 500 - boom''),
        msg_image = JUndefined, stlUrl = JUndefined, ts = clock s \<rparr>"
    by (simp add: botMsg_def) (simp add: lit_def)
  have m: "messages (step (Settle (Fulfilled ?r)) s) = messages s @ [botMsg (clock s) (Fulfilled ?r)]"
    using assms by (simp add: step_simps resolveRequest_def)
  have "lit ''Error: Server error: 500 - boom'' = lit ''Error: Server error: '' @ lit ''500'' @ lit '' - boom''"
    by (simp add: lit_def)
  then have s1: "sublist (lit ''500'') (lit ''Error: Server error: 500 - boom'')"
    unfolding sublist_def by blast
  have "lit ''Error: Server error: 500 - boom'' = lit ''Error: Server error: 500 - '' @ lit ''boom'' @ []"
    by (simp add: lit_def)
  then have s2: "sublist (lit ''boom'') (lit ''Error: Server error: 500 - boom'')"
    unfolding sublist_def by blast
  show ?thesis using m b s1 s2 by simp
qed

theorem server_error_500_boom_witness:
  "messages (step (Settle (Fulfilled \<lparr> status = 500, body_text = Fulfilled (lit ''boom''),
                                      body_json = Rejected (lit ''Unexpected token b'') \<rparr>))
               (step Submit (init\<lparr> prompt := lit ''a cube'' \<rparr>))) =
     [\<lparr> role = User, msg_text = JStr (lit ''a cube''), msg_image = JUndefined, stlUrl = JUndefined, ts = 0 \<rparr>,
      \<lparr> role = Bot, msg_text = JStr (lit ''Error: Server error: 500 - boom''),
        msg_image = JUndefined, stlUrl = JUndefined, ts = 0 \<rparr>]"
proof -
  let ?s = "step Submit (init\<lparr> prompt := lit ''a cube'' \<rparr>)"
  have t: "trim (lit ''a cube'') = lit ''a cube''"
    by (simp add: trim_def lit_def isWhiteSpace_def)
  have ne: "lit ''a cube'' \<noteq> []" by (simp add: lit_def)
  have s: "?s = init\<lparr> messages := [userMsg (lit ''a cube'') 0], prompt := [], loading := True,
                      typing := True, pending := [lit ''a cube''] \<rparr>"
    using ne by (simp add: step_simps sendMessage_def Let_def t init_def)
  have h: "pending ?s = lit ''a cube'' # []" by (simp add: s)
  show ?thesis
    using server_error_500_boom [OF h, of "Rejected (lit ''Unexpected token b'')"]
    unfolding s by (simp add: userMsg_def init_def)
qed




section \<open>The Clear button\<close>

text \<open>
  Clear empties the message list whatever it held, and the render that follows cannot
  fail. It leaves the outstanding fetch, the \<open>loading\<close> flag and the timers alone.
  When the fetch settles afterwards with a bot message React can render, that message is
  the whole conversation.
\<close>

lemma clear_empties:
  "messages (step Clear s) = [] \<and> app_step Clear (Running s) = Running (s\<lparr> messages := [] \<rparr>)"
  by (simp add: step_simps clear_def renders_def)

lemma clear_keeps_request:
  "pending (step Clear s) = pending s \<and> loading (step Clear s) = loading s
   \<and> timers (step Clear s) = timers s"
  by (simp add: step_simps clear_def)

lemma settle_after_clear:
  assumes "pending s = sent # rest" and "renderable (msg_text (botMsg (clock s) outcome))"
  shows "shown (app_run [Clear, Settle outcome] (Running s)) = Some [botMsg (clock s) outcome]"
proof -
  have m: "messages (step (Settle outcome) (step Clear s)) = [botMsg (clock s) outcome]"
    using assms(1) by (simp add: step_simps clear_def resolveRequest_def)
  with assms(2) have r: "renders (step (Settle outcome) (step Clear s))"
    by (simp add: renders_def)
  have c: "app_step Clear (Running s) = Running (step Clear s)"
    by (simp add: step_simps clear_def renders_def)
  from app_step_Running [OF r] c m show ?thesis by simp
qed

text \<open>
  C7. Clear empties the list and does not cancel the request in flight, which still
  resolves and appends its bot message. The first half holds as stated. The code breaks
  the second for a reply of status 200 whose \<open>text\<close> is a JSON object: the request
  survives Clear and settles, the message it appends cannot be rendered, and the
  application is unmounted instead of showing it.
\<close>

theorem clear_then_object_text_reply_unmounts:
  "shown (app_run [SetPrompt (lit ''a''), Submit, Clear] (Running init)) = Some []
   \<and> pending (run [SetPrompt (lit ''a''), Submit, Clear] init) = [lit ''a'']
   \<and> loading (run [SetPrompt (lit ''a''), Submit, Clear] init)
   \<and> app_run [SetPrompt (lit ''a''), Submit, Clear, Settle (Fulfilled objectTextReply)]
        (Running init) = Unmounted
   \<and> shown (app_run [SetPrompt (lit ''a''), Submit, Clear, Settle (Fulfilled objectTextReply)]
        (Running init)) = None"
proof -
  let ?s = "init\<lparr> messages := [], loading := True, typing := True, pending := [lit ''a''] \<rparr>"
  have ne: "lit ''a'' \<noteq> []" by (simp add: lit_def)
  have k: "lit ''image'' \<noteq> lit ''text''" "lit ''stlUrl'' \<noteq> lit ''text''"
    by (simp_all add: lit_def)
  have b: "msg_text (botMsg 0 (Fulfilled objectTextReply)) = JObj [(lit ''a'', JNum (Dbl 1 0))]"
    using k by (simp add: botMsg_def tryBody_def ok_def objectTextReply_def)
  have s1: "run [SetPrompt (lit ''a''), Submit, Clear] init = ?s"
    using ne by (simp add: step_simps sendMessage_def clear_def Let_def trim_a init_def)
  have a1: "app_run [SetPrompt (lit ''a''), Submit, Clear] (Running init) = Running ?s"
    using ne
    by (simp add: step_simps sendMessage_def clear_def Let_def trim_a init_def renders_def
          userMsg_def)
  have a2: "app_step (Settle (Fulfilled objectTextReply)) (Running ?s) = Unmounted"
    by (simp add: resolveRequest_def renders_def b init_def)
  have e: "app_run [SetPrompt (lit ''a''), Submit, Clear, Settle (Fulfilled objectTextReply)]
             (Running init)
       = app_step (Settle (Fulfilled objectTextReply))
           (app_run [SetPrompt (lit ''a''), Submit, Clear] (Running init))"
    by simp
  have a3: "app_run [SetPrompt (lit ''a''), Submit, Clear, Settle (Fulfilled objectTextReply)]
             (Running init) = Unmounted"
    unfolding e a1 by (rule a2)
  show ?thesis
    unfolding a3 a1 s1 by simp
qed

text \<open>
  C10. Clear changes the message list and nothing else: the prompt, the \<open>loading\<close>
  and \<open>typing\<close> flags, the preview reference and the preview flag are as before, and
  so are the outstanding fetch, the timers, the loader scripts and the registry.
\<close>

theorem clear_changes_only_messages:
  "step Clear s = s\<lparr> messages := [] \<rparr>
   \<and> prompt (step Clear s) = prompt s
   \<and> loading (step Clear s) = loading s
   \<and> typing (step Clear s) = typing s
   \<and> previewUrl (step Clear s) = previewUrl s
   \<and> showPreview (step Clear s) = showPreview s
   \<and> pending (step Clear s) = pending s
   \<and> timers (step Clear s) = timers s
   \<and> scripts (step Clear s) = scripts s
   \<and> registered (step Clear s) = registered s"
  by (simp add: step_def commit_def clear_def)

section \<open>The in-flight flag and the typing indicator\<close>

text \<open>
  The \<open>loading\<close> flag is set from the submission until the fetch settles and is
  clear afterwards. The indicator of a submission that finds no timer pending stays on
  for 250 ms after the fetch settles.
\<close>

lemma loading_until_settled:
  assumes "trim (prompt s) \<noteq> []" and "\<not> loading s" and "single_flight s"
    and "list_all quiet mid"
  shows "loading (run (Submit # mid) s) \<and> \<not> loading (run (Submit # mid @ [Settle outcome]) s)"
proof -
  from assms(2,3) have p0: "pending s = []" by (simp add: single_flight_def)
  from assms(1,2) p0 have s1: "loading (step Submit s)" "pending (step Submit s) = [trim (prompt s)]"
    by (simp_all add: step_simps sendMessage_def Let_def)
  from quiet_run [OF s1(1) assms(4)] s1
  have s2: "loading (run mid (step Submit s))" "pending (run mid (step Submit s)) = [trim (prompt s)]"
    by simp_all
  have "\<not> loading (step (Settle outcome) (run mid (step Submit s)))"
    using s2(2) by (simp add: step_simps resolveRequest_def)
  with s2(1) show ?thesis by (simp add: run_append)
qed

lemma typing_grace_single:
  assumes "pending s = sent # rest" and "timers s = []" and "typing s"
  shows "typing (run [Settle outcome, Advance d] s) = (d < 250)"
  using assms by (auto simp add: step_simps resolveRequest_def advance_def Let_def)

text \<open>
  C8. The timer set when a request settles is never cancelled. A first request settles
  at time 0; a second prompt is submitted at time 100, inside the grace period. At time
  250 the first timer fires and clears the indicator while the second request is in
  flight; when that request settles at time 300 the indicator is already off, although
  its own grace period lasts until 550.
\<close>

theorem stale_timer_clears_typing:
  "loading (run [SetPrompt (lit ''a''), Submit, Settle (Rejected (lit ''Failed to fetch'')),
                 Advance 100, SetPrompt (lit ''b''), Submit, Advance 150] init)
   \<and> pending (run [SetPrompt (lit ''a''), Submit, Settle (Rejected (lit ''Failed to fetch'')),
                 Advance 100, SetPrompt (lit ''b''), Submit, Advance 150] init) = [lit ''b'']
   \<and> \<not> typing (run [SetPrompt (lit ''a''), Submit, Settle (Rejected (lit ''Failed to fetch'')),
                 Advance 100, SetPrompt (lit ''b''), Submit, Advance 150] init)
   \<and> clock (run [SetPrompt (lit ''a''), Submit, Settle (Rejected (lit ''Failed to fetch'')),
                 Advance 100, SetPrompt (lit ''b''), Submit, Advance 150, Advance 50,
                 Settle (Rejected (lit ''Failed to fetch''))] init) = 300
   \<and> timers (run [SetPrompt (lit ''a''), Submit, Settle (Rejected (lit ''Failed to fetch'')),
                 Advance 100, SetPrompt (lit ''b''), Submit, Advance 150, Advance 50,
                 Settle (Rejected (lit ''Failed to fetch''))] init) = [550]
   \<and> \<not> typing (run [SetPrompt (lit ''a''), Submit, Settle (Rejected (lit ''Failed to fetch'')),
                 Advance 100, SetPrompt (lit ''b''), Submit, Advance 150, Advance 50,
                 Settle (Rejected (lit ''Failed to fetch''))] init)"
proof -
  have ne: "lit ''a'' \<noteq> []" "lit ''b'' \<noteq> []" by (simp_all add: lit_def)
  show ?thesis
    using ne
    by (simp add: step_simps sendMessage_def resolveRequest_def advance_def Let_def trim_a init_def)
qed

section \<open>The route table\<close>

text \<open>
  The path \<open>/app\<close> matches neither the root nor the generator route, and it leads to
  the generator, not to the root.
\<close>

theorem app_route_counterexample:
  "\<not> matchPath ''/'' ''/app'' \<and> \<not> matchPath ''/generator'' ''/app''
   \<and> matchRoutes routes ''/app'' = Some (Navigate ''/generator'')
   \<and> showPage 2 ''/app'' = Some ModelMint3DGenerator"
  by (simp add: matchPath_def stripSlashes_def lower_def routes_def numeral_2_eq_2)

text \<open>
  C9, as the code has it, for a pathname without percent-escapes. The root route shows
  the landing page and the generator route the chat screen; \<open>/app\<close> redirects to the
  generator; every other path redirects to the root and so shows the landing page. A
  path is one of the three up to the case of its letters and trailing slashes.
\<close>

theorem route_table:
  assumes "plainPath p"
  shows "matchRoutes routes p =
     (if matchPath ''/'' p then Some (Render LandingPage)
      else if matchPath ''/generator'' p then Some (Render ModelMint3DGenerator)
      else if matchPath ''/app'' p then Some (Navigate ''/generator'')
      else Some (Navigate ''/''))
   \<and> showPage 2 p =
     Some (if matchPath ''/'' p then LandingPage
           else if matchPath ''/generator'' p \<or> matchPath ''/app'' p then ModelMint3DGenerator
           else LandingPage)"
proof -
  have star: "matchPath ''*'' p" by (rule plainPath_star [OF assms])
  have root: "matchRoutes routes ''/'' = Some (Render LandingPage)"
    by (simp add: routes_def matchPath_def stripSlashes_def)
  have gen: "matchRoutes routes ''/generator'' = Some (Render ModelMint3DGenerator)"
    by (simp add: routes_def matchPath_def stripSlashes_def lower_def)
  have m: "matchRoutes routes p =
     (if matchPath ''/'' p then Some (Render LandingPage)
      else if matchPath ''/generator'' p then Some (Render ModelMint3DGenerator)
      else if matchPath ''/app'' p then Some (Navigate ''/generator'')
      else Some (Navigate ''/''))"
    using star by (simp add: routes_def)
  have two: "showPage 2 q = (case matchRoutes routes q of None \<Rightarrow> None | Some (Render pg) \<Rightarrow> Some pg
      | Some (Navigate target) \<Rightarrow> (case matchRoutes routes target of None \<Rightarrow> None | Some (Render pg) \<Rightarrow> Some pg
      | Some (Navigate t2) \<Rightarrow> None))" for q
    by (simp add: numeral_2_eq_2 split: option.split element.split)
  show ?thesis
    unfolding two m by (simp add: root gen)
qed

theorem route_table_witness:
  "plainPath ''/nowhere'' \<and> matchRoutes routes ''/nowhere'' = Some (Navigate ''/'')
   \<and> showPage 2 ''/nowhere'' = Some LandingPage
   \<and> plainPath ''/Generator/'' \<and> showPage 2 ''/Generator/'' = Some ModelMint3DGenerator"
proof -
  have h1: "plainPath ''/nowhere''" by (simp add: plainPath_def)
  have h2: "plainPath ''/Generator/''" by (simp add: plainPath_def)
  have n: "\<not> matchPath ''/'' ''/nowhere''" "\<not> matchPath ''/generator'' ''/nowhere''"
    "\<not> matchPath ''/app'' ''/nowhere''"
    by (simp_all add: matchPath_def stripSlashes_def lower_def)
  have g: "\<not> matchPath ''/'' ''/Generator/''" "matchPath ''/generator'' ''/Generator/''"
    by code_simp+
  show ?thesis
    using h1 h2 route_table [OF h1] route_table [OF h2] n g by simp
qed

end
